theory Spec2Isabelle
  imports Complex_Main "HOL-Library.Log_Nat"
begin

section \<open>Profile summary script: data model\<close>

text \<open>
  The script \<^verbatim>\<open>quick_profile_analysis.py\<close> unpacks a profile, loads it with
  \<^verbatim>\<open>json.load\<close> and prints one block per thread, a summary and a fixed comparison.
  The model keeps the Python values the script reads: integers are unbounded (\<open>int\<close>),
  a JSON object read with \<^verbatim>\<open>.get(key, default)\<close> has optional entries, and every
  exception the script can raise on such a document is a value of \<open>error\<close>.
\<close>

datatype error = KeyError | IndexError | OverflowError | ValueError | ZeroDivisionError
  | OSError | JSONDecodeError

text \<open>A Python \<^verbatim>\<open>dict\<close> with string keys, in insertion order.\<close>

type_synonym 'v dict = "(string \<times> 'v) list"

definition dict_get :: "'v dict \<Rightarrow> string \<Rightarrow> 'v \<Rightarrow> 'v" where
  \<comment> \<open>\<^verbatim>\<open>d.get(key, default)\<close>\<close>
  "dict_get d key dflt = (case map_of d key of None \<Rightarrow> dflt | Some v \<Rightarrow> v)"

definition dict_item :: "'v dict \<Rightarrow> string \<Rightarrow> error + 'v" where
  \<comment> \<open>\<^verbatim>\<open>d[key]\<close>\<close>
  "dict_item d key = (case map_of d key of None \<Rightarrow> Inl KeyError | Some v \<Rightarrow> Inr v)"

definition list_item :: "'a list \<Rightarrow> int \<Rightarrow> error + 'a" where
  \<comment> \<open>\<^verbatim>\<open>xs[i]\<close>: a negative index counts from the end, anything else out of range raises\<close>
  "list_item xs i =
     (let n = int (length xs) in
      if 0 \<le> i \<and> i < n then Inr (xs ! nat i)
      else if - n \<le> i \<and> i < 0 then Inr (xs ! nat (n + i))
      else Inl IndexError)"

subsection \<open>Per-sample resolution (source lines 65 to 72)\<close>

text \<open>
  One pass of the body of \<^verbatim>\<open>for stack_idx in stacks\<close>. The three tests are the
  source's: \<^verbatim>\<open>stack_idx is not None and stack_idx < len(stack_table.get('frame', []))\<close>,
  \<^verbatim>\<open>frame_idx < len(frame_table.get('func', []))\<close> and
  \<^verbatim>\<open>func_idx < len(func_names)\<close>; the three reads are \<^verbatim>\<open>stack_table['frame'][stack_idx]\<close>,
  \<^verbatim>\<open>frame_table['func'][frame_idx]\<close> and \<^verbatim>\<open>func_names[func_idx]\<close>.
\<close>

definition sample_step ::
  "int list dict \<Rightarrow> int list dict \<Rightarrow> string list \<Rightarrow> int option \<Rightarrow> string list
     \<Rightarrow> error + string list" where
  "sample_step stack_table frame_table func_names stack_idx func_calls =
     (case stack_idx of
        None \<Rightarrow> Inr func_calls
      | Some si \<Rightarrow>
          if si < int (length (dict_get stack_table ''frame'' [])) then
            (case dict_item stack_table ''frame'' of
               Inl e \<Rightarrow> Inl e
             | Inr frames \<Rightarrow>
                 (case list_item frames si of
                    Inl e \<Rightarrow> Inl e
                  | Inr frame_idx \<Rightarrow>
                      if frame_idx < int (length (dict_get frame_table ''func'' [])) then
                        (case dict_item frame_table ''func'' of
                           Inl e \<Rightarrow> Inl e
                         | Inr funcs \<Rightarrow>
                             (case list_item funcs frame_idx of
                                Inl e \<Rightarrow> Inl e
                              | Inr func_idx \<Rightarrow>
                                  if func_idx < int (length func_names) then
                                    (case list_item func_names func_idx of
                                       Inl e \<Rightarrow> Inl e
                                     | Inr func_name \<Rightarrow> Inr (func_calls @ [func_name]))
                                  else Inr func_calls))
                      else Inr func_calls))
          else Inr func_calls)"

fun resolve_loop ::
  "int list dict \<Rightarrow> int list dict \<Rightarrow> string list \<Rightarrow> int option list \<Rightarrow> string list
     \<Rightarrow> error + string list" where
  "resolve_loop stack_table frame_table func_names [] func_calls = Inr func_calls"
| "resolve_loop stack_table frame_table func_names (stack_idx # stacks) func_calls =
     (case sample_step stack_table frame_table func_names stack_idx func_calls of
        Inl e \<Rightarrow> Inl e
      | Inr func_calls' \<Rightarrow> resolve_loop stack_table frame_table func_names stacks func_calls')"

subsection \<open>Counting (source lines 74 to 80)\<close>

text \<open>
  \<^verbatim>\<open>collections.Counter\<close> is a dict from element to count, in order of first
  occurrence. \<^verbatim>\<open>most_common(n)\<close> is \<^verbatim>\<open>heapq.nlargest(n, items, key=count)\<close>, which the
  library documents as \<^verbatim>\<open>sorted(items, key=count, reverse=True)[:n]\<close>: a stable sort
  by descending count, cut after \<open>n\<close> entries.
\<close>

fun counter_add :: "string \<Rightarrow> (string \<times> nat) list \<Rightarrow> (string \<times> nat) list" where
  "counter_add x [] = [(x, 1)]"
| "counter_add x ((k, c) # rest) =
     (if k = x then (k, c + 1) # rest else (k, c) # counter_add x rest)"

definition Counter :: "string list \<Rightarrow> (string \<times> nat) list" where
  "Counter elems = fold counter_add elems []"

definition most_common :: "nat \<Rightarrow> (string \<times> nat) list \<Rightarrow> (string \<times> nat) list" where
  "most_common n counter = take n (sort_key (\<lambda>(k, c). - int c) counter)"


subsection \<open>Python floats\<close>

text \<open>
  A Python \<^verbatim>\<open>float\<close> is an IEEE 754 double: a finite value is kept as the rational
  number it denotes (the two zeros are one value), next to the infinities and NaN.
  \<open>round_double\<close> is rounding to nearest, ties to even, to 53 significant bits with
  the exponent range of a double (subnormals below \<open>2 powi (-1022)\<close>, overflow to an
  infinity from \<open>2 powi 1024\<close>).
\<close>

datatype pyfloat = Finite rat | PosInf | NegInf | NaN

definition round_half_even :: "rat \<Rightarrow> int" where
  "round_half_even q =
     (let f = \<lfloor>q\<rfloor>; d = q - of_int f in
      if d < 1 / 2 then f else if 1 / 2 < d then f + 1 else if even f then f else f + 1)"

definition floor_log2 :: "rat \<Rightarrow> int" where
  \<comment> \<open>for \<open>0 < q\<close>: the \<open>e\<close> with \<open>2 powi e \<le> q < 2 powi (e + 1)\<close>\<close>
  "floor_log2 q =
     (let k = bitlen (fst (quotient_of q)) - bitlen (snd (quotient_of q)) in
      if 2 powi k \<le> q then k else k - 1)"

definition round_double :: "rat \<Rightarrow> pyfloat" where
  "round_double q =
     (if q = 0 then Finite 0
      else
        let e = floor_log2 \<bar>q\<bar>;
            p = max (e - 52) (- 1074);
            m = round_half_even (\<bar>q\<bar> / 2 powi p)
        in if 1023 < e \<or> (e = 1023 \<and> m = 2 ^ 53)
           then (if q < 0 then NegInf else PosInf)
           else Finite (sgn q * of_int m * 2 powi p))"

definition truediv :: "int \<Rightarrow> int \<Rightarrow> error + pyfloat" where
  \<comment> \<open>\<^verbatim>\<open>a / b\<close> on two ints: the correctly rounded quotient, or an exception\<close>
  "truediv a b =
     (if b = 0 then Inl ZeroDivisionError
      else case round_double (of_int a / of_int b) of
             Finite r \<Rightarrow> Inr (Finite r)
           | _ \<Rightarrow> Inl OverflowError)"

fun float_mul :: "pyfloat \<Rightarrow> pyfloat \<Rightarrow> pyfloat" where
  "float_mul (Finite a) (Finite b) = round_double (a * b)"
| "float_mul NaN _ = NaN"
| "float_mul _ NaN = NaN"
| "float_mul (Finite a) PosInf = (if a = 0 then NaN else if 0 < a then PosInf else NegInf)"
| "float_mul (Finite a) NegInf = (if a = 0 then NaN else if 0 < a then NegInf else PosInf)"
| "float_mul PosInf (Finite b) = (if b = 0 then NaN else if 0 < b then PosInf else NegInf)"
| "float_mul NegInf (Finite b) = (if b = 0 then NaN else if 0 < b then NegInf else PosInf)"
| "float_mul PosInf PosInf = PosInf"
| "float_mul NegInf NegInf = PosInf"
| "float_mul PosInf NegInf = NegInf"
| "float_mul NegInf PosInf = NegInf"

fun float_add :: "pyfloat \<Rightarrow> pyfloat \<Rightarrow> pyfloat" where
  "float_add (Finite a) (Finite b) = round_double (a + b)"
| "float_add NaN _ = NaN"
| "float_add _ NaN = NaN"
| "float_add PosInf NegInf = NaN"
| "float_add NegInf PosInf = NaN"
| "float_add PosInf _ = PosInf"
| "float_add _ PosInf = PosInf"
| "float_add NegInf _ = NegInf"
| "float_add _ NegInf = NegInf"

definition float_sum :: "pyfloat list \<Rightarrow> pyfloat" where
  \<comment> \<open>\<^verbatim>\<open>sum(xs)\<close> on floats: the additions from left to right, starting at 0
      (CPython from 3.12 on adds a compensation term; both give the exact sum whenever
      every addition is exact)\<close>
  "float_sum xs = foldl float_add (Finite 0) xs"

definition py_int :: "pyfloat \<Rightarrow> error + int" where
  \<comment> \<open>\<^verbatim>\<open>int(x)\<close>: truncation toward zero\<close>
  "py_int x =
     (case x of
        Finite r \<Rightarrow> Inr (if 0 \<le> r then \<lfloor>r\<rfloor> else \<lceil>r\<rceil>)
      | NaN \<Rightarrow> Inl ValueError
      | _ \<Rightarrow> Inl OverflowError)"

subsection \<open>Formatting\<close>

definition digit :: "nat \<Rightarrow> char" where
  "digit d = ''0123456789'' ! d"

fun str_nat :: "nat \<Rightarrow> string" where
  "str_nat n = (if n < 10 then [digit n] else str_nat (n div 10) @ [digit (n mod 10)])"

definition fmt2 :: "pyfloat \<Rightarrow> string" where
  \<comment> \<open>the format \<^verbatim>\<open>:.2f\<close>: the decimal with two places nearest to the value, ties to even\<close>
  "fmt2 x =
     (case x of
        Finite q \<Rightarrow>
          (let n = nat (round_half_even (\<bar>q\<bar> * 100)) in
           (if q < 0 then ''-'' else []) @ str_nat (n div 100) @ ''.''
             @ [digit (n mod 100 div 10), digit (n mod 10)])
      | PosInf \<Rightarrow> ''inf''
      | NegInf \<Rightarrow> ''-inf''
      | NaN \<Rightarrow> ''nan'')"

subsection \<open>The profile document\<close>

text \<open>
  The fields the script reads, each optional where it is read with \<^verbatim>\<open>.get\<close>. The
  three tables are dicts from a column name to a column; \<^verbatim>\<open>samples\<close> has columns of
  different types and is a record of optional entries.
\<close>

record sample_block =
  sample_length :: "int option"              \<comment> \<open>key \<^verbatim>\<open>length\<close>\<close>
  timeDeltas :: "pyfloat list option"
  threadCPUDelta :: "int list option"
  stack :: "int option list option"         \<comment> \<open>entries may be \<^verbatim>\<open>null\<close>\<close>

record thread =
  name :: "string option"
  isMainThread :: "bool option"
  samples :: "sample_block option"
  stackTable :: "int list dict option"
  frameTable :: "int list dict option"
  funcTable :: "string list dict option"

record profile_document =
  threads :: "thread list option"

definition empty_samples :: sample_block where
  \<comment> \<open>the default \<^verbatim>\<open>{}\<close> of \<^verbatim>\<open>thread.get('samples', {})\<close>\<close>
  "empty_samples =
     \<lparr>sample_length = None, timeDeltas = None, threadCPUDelta = None, stack = None\<rparr>"

subsection \<open>Output\<close>

text \<open>
  One constructor for each \<^verbatim>\<open>print\<close> of the script, with the values it formats; the
  fixed texts (in Russian in the source) are the constructors without arguments.
\<close>

datatype line =
    Unpacking                   \<comment> \<open>line 10\<close>
  | UnpackError string          \<comment> \<open>line 14, with the captured stderr\<close>
  | Analyzing                   \<comment> \<open>line 18\<close>
  | ReportHeader                \<comment> \<open>line 22\<close>
  | Blank                       \<comment> \<open>\<^verbatim>\<open>print()\<close>\<close>
  | ThreadsTotal nat            \<comment> \<open>line 26, \<^verbatim>\<open>len(threads)\<close>\<close>
  | ThreadHeader nat string     \<comment> \<open>line 38, \<^verbatim>\<open>i+1\<close> and the name\<close>
  | MainThread bool             \<comment> \<open>line 39\<close>
  | SampleCount int             \<comment> \<open>line 40\<close>
  | TotalTime string            \<comment> \<open>line 49, the time formatted \<^verbatim>\<open>:.2f\<close>\<close>
  | CpuTime int                 \<comment> \<open>line 50\<close>
  | TopHeader                   \<comment> \<open>line 78\<close>
  | FuncLine string nat         \<comment> \<open>line 80\<close>
  | SummaryHeader               \<comment> \<open>line 84\<close>
  | SummarySamples int          \<comment> \<open>line 85\<close>
  | SummaryCpu int string       \<comment> \<open>line 86, microseconds and milliseconds \<^verbatim>\<open>:.2f\<close>\<close>
  | ComparisonHeader            \<comment> \<open>line 90\<close>
  | PreviousProfile             \<comment> \<open>line 91\<close>
  | PreviousCpu                 \<comment> \<open>line 92\<close>
  | PreviousBottleneck          \<comment> \<open>line 93\<close>
  | OptimizedProfile            \<comment> \<open>line 95\<close>
  | OptimizedCpu int string     \<comment> \<open>line 96\<close>
  | Improvement int             \<comment> \<open>line 97, the integer between \<^verbatim>\<open>~\<close> and \<^verbatim>\<open>%\<close>\<close>
  | Done                        \<comment> \<open>line 100\<close>

datatype event = Print line | OpenJson

datatype exit_status = ExitOk | SysExit int | Uncaught error

definition exit_code :: "exit_status \<Rightarrow> int" where
  "exit_code st = (case st of ExitOk \<Rightarrow> 0 | SysExit n \<Rightarrow> n | Uncaught e \<Rightarrow> 1)"

subsection \<open>Function frequencies of a thread (source lines 56 to 80)\<close>

definition report_calls ::
  "int list dict \<Rightarrow> int list dict \<Rightarrow> string list \<Rightarrow> int option list
     \<Rightarrow> line list \<times> error option" where
  \<comment> \<open>lines 65 to 80: the loop, then the five most common names if any was resolved\<close>
  "report_calls stack_table frame_table func_names stacks =
     (case resolve_loop stack_table frame_table func_names stacks [] of
        Inl e \<Rightarrow> ([], Some e)
      | Inr func_calls \<Rightarrow>
          (if func_calls \<noteq> []
           then (TopHeader # map (\<lambda>(func_name, count). FuncLine func_name count)
                               (most_common 5 (Counter func_calls)), None)
           else ([], None)))"

definition function_report :: "thread \<Rightarrow> sample_block \<Rightarrow> line list \<times> error option" where
  "function_report thread smp =
     (let stack_table = (case stackTable thread of None \<Rightarrow> [] | Some d \<Rightarrow> d);
          frame_table = (case frameTable thread of None \<Rightarrow> [] | Some d \<Rightarrow> d)
      in if stack_table \<noteq> [] \<and> stack smp \<noteq> None then
           (let stacks = (case stack smp of None \<Rightarrow> [] | Some s \<Rightarrow> s);
                func_table = (case funcTable thread of None \<Rightarrow> [] | Some d \<Rightarrow> d);
                func_names = dict_get func_table ''name'' []
            in if stacks \<noteq> [] \<and> func_names \<noteq> []
               then report_calls stack_table frame_table func_names stacks
               else ([], None))
         else ([], None))"


subsection \<open>The thread loop (source lines 29 to 82)\<close>

definition thread_name :: "nat \<Rightarrow> thread \<Rightarrow> string" where
  \<comment> \<open>line 33: \<^verbatim>\<open>thread.get('name', f'Thread {i}')\<close>, \<open>i\<close> from \<^verbatim>\<open>enumerate\<close>\<close>
  "thread_name i thread = (case name thread of None \<Rightarrow> ''Thread '' @ str_nat i | Some n \<Rightarrow> n)"

definition thread_samples :: "thread \<Rightarrow> sample_block" where
  "thread_samples thread = (case samples thread of None \<Rightarrow> empty_samples | Some s \<Rightarrow> s)"

definition sample_count :: "thread \<Rightarrow> int" where
  \<comment> \<open>line 36: \<^verbatim>\<open>samples.get('length', 0)\<close>\<close>
  "sample_count thread =
     (case sample_length (thread_samples thread) of None \<Rightarrow> 0 | Some n \<Rightarrow> n)"

definition time_deltas :: "thread \<Rightarrow> pyfloat list" where
  "time_deltas thread = (case timeDeltas (thread_samples thread) of None \<Rightarrow> [] | Some xs \<Rightarrow> xs)"

definition cpu_deltas :: "thread \<Rightarrow> int list" where
  "cpu_deltas thread =
     (case threadCPUDelta (thread_samples thread) of None \<Rightarrow> [] | Some xs \<Rightarrow> xs)"

definition is_main :: "thread \<Rightarrow> bool" where
  \<comment> \<open>line 34: \<^verbatim>\<open>thread.get('isMainThread', False)\<close>\<close>
  "is_main thread = (case isMainThread thread of None \<Rightarrow> False | Some b \<Rightarrow> b)"

definition thread_block ::
  "nat \<Rightarrow> thread \<Rightarrow> int \<Rightarrow> int \<Rightarrow> line list \<times> (error + int \<times> int)" where
  \<comment> \<open>one pass of the loop body: the lines printed, then the exception or the new totals\<close>
  "thread_block i thread total_samples total_cpu_time =
     (let header = [ThreadHeader (i + 1) (thread_name i thread), MainThread (is_main thread),
                    SampleCount (sample_count thread)]
      in if 0 < sample_count thread then
           (let total_time = float_sum (time_deltas thread);
                total_cpu = sum_list (cpu_deltas thread);
                times = [TotalTime (fmt2 total_time), CpuTime total_cpu]
            in case function_report thread (thread_samples thread) of
                 (top5, Some e) \<Rightarrow> (header @ times @ top5, Inl e)
               | (top5, None) \<Rightarrow>
                   (header @ times @ top5 @ [Blank],
                    Inr (total_samples + sample_count thread, total_cpu_time + total_cpu)))
         else (header @ [Blank], Inr (total_samples, total_cpu_time)))"

fun threads_loop ::
  "nat \<Rightarrow> thread list \<Rightarrow> int \<Rightarrow> int \<Rightarrow> line list \<times> (error + int \<times> int)" where
  "threads_loop i [] total_samples total_cpu_time = ([], Inr (total_samples, total_cpu_time))"
| "threads_loop i (thread # rest) total_samples total_cpu_time =
     (case thread_block i thread total_samples total_cpu_time of
        (out, Inl e) \<Rightarrow> (out, Inl e)
      | (out, Inr (total_samples', total_cpu_time')) \<Rightarrow>
          (case threads_loop (Suc i) rest total_samples' total_cpu_time' of
             (out', r) \<Rightarrow> (out @ out', r)))"

subsection \<open>Summary and comparison (source lines 84 to 100)\<close>

definition improvement :: "int \<Rightarrow> error + int" where
  \<comment> \<open>line 97: \<^verbatim>\<open>int((9087 - total_cpu_time) / 9087 * 100)\<close>\<close>
  "improvement total_cpu_time =
     (case truediv (9087 - total_cpu_time) 9087 of
        Inl e \<Rightarrow> Inl e
      | Inr x \<Rightarrow> py_int (float_mul x (Finite 100)))"

definition summary :: "int \<Rightarrow> int \<Rightarrow> line list \<times> exit_status" where
  "summary total_samples total_cpu_time =
     (case truediv total_cpu_time 1000 of
        Inl e \<Rightarrow> ([SummaryHeader, SummarySamples total_samples], Uncaught e)
      | Inr ms \<Rightarrow>
          (let out = [SummaryHeader, SummarySamples total_samples,
                      SummaryCpu total_cpu_time (fmt2 ms), Blank,
                      ComparisonHeader, PreviousProfile, PreviousCpu, PreviousBottleneck, Blank,
                      OptimizedProfile, OptimizedCpu total_cpu_time (fmt2 ms)]
           in case improvement total_cpu_time of
                Inl e \<Rightarrow> (out, Uncaught e)
              | Inr percent \<Rightarrow> (out @ [Improvement percent, Blank, Done], ExitOk)))"

subsection \<open>The whole script\<close>

definition report :: "profile_document \<Rightarrow> line list \<times> exit_status" where
  \<comment> \<open>lines 22 to 100, on the loaded document\<close>
  "report data =
     (case threads data of
        None \<Rightarrow> ([ReportHeader, Blank], Uncaught KeyError)
      | Some ts \<Rightarrow>
          (case threads_loop 0 ts 0 0 of
             (out, Inl e) \<Rightarrow>
               ([ReportHeader, Blank, ThreadsTotal (length ts), Blank] @ out, Uncaught e)
           | (out, Inr (total_samples, total_cpu_time)) \<Rightarrow>
               (case summary total_samples total_cpu_time of
                  (out', st) \<Rightarrow>
                    ([ReportHeader, Blank, ThreadsTotal (length ts), Blank] @ out @ out', st))))"

text \<open>
  \<open>main\<close> takes what the environment delivers: the triple \<^verbatim>\<open>run_cmd\<close> returns for the
  unpacking command (stdout, stderr, return code), and what opening and loading
  \<^verbatim>\<open>optimized-profile.json\<close> gives (an exception or the document). \<open>OpenJson\<close> in the
  trace marks that the file was opened.
\<close>

definition main ::
  "string \<times> string \<times> int \<Rightarrow> error + profile_document \<Rightarrow> event list \<times> exit_status" where
  "main cmd_result loaded =
     (case cmd_result of
        (stdout, stderr, code) \<Rightarrow>
          if code \<noteq> 0 then ([Print Unpacking, Print (UnpackError stderr)], SysExit 1)
          else
            (case loaded of
               Inl e \<Rightarrow> ([Print Unpacking, Print Analyzing, OpenJson], Uncaught e)
             | Inr data \<Rightarrow>
                 (case report data of
                    (out, st) \<Rightarrow>
                      ([Print Unpacking, Print Analyzing, OpenJson] @ map Print out, st))))"

subsection \<open>The resolution as the specification words it\<close>

text \<open>
  The specification describes the resolution of one sample as three checked lookups that
  give a name or nothing: an index is used only when it lies within the bounds of its
  table, counted from 0. \<open>resolve_name_spec\<close> follows these words; it is compared with the
  source's loop below.
\<close>

definition resolve_name_spec ::
  "int list dict \<Rightarrow> int list dict \<Rightarrow> string list \<Rightarrow> int option \<Rightarrow> string option" where
  "resolve_name_spec stack_table frame_table func_names stack_idx =
     (case stack_idx of
        None \<Rightarrow> None
      | Some si \<Rightarrow>
          (let frames = dict_get stack_table ''frame'' [];
               funcs = dict_get frame_table ''func'' []
           in if 0 \<le> si \<and> si < int (length frames) then
                (let frame_idx = frames ! nat si
                 in if 0 \<le> frame_idx \<and> frame_idx < int (length funcs) then
                      (let func_idx = funcs ! nat frame_idx
                       in if 0 \<le> func_idx \<and> func_idx < int (length func_names)
                          then Some (func_names ! nat func_idx) else None)
                    else None)
              else None))"

definition nonneg_index :: "int option \<Rightarrow> bool" where
  "nonneg_index stack_idx = (case stack_idx of None \<Rightarrow> True | Some si \<Rightarrow> 0 \<le> si)"

subsection \<open>Sample inputs\<close>

definition bare_thread :: thread where
  \<comment> \<open>the thread \<^verbatim>\<open>{}\<close>\<close>
  "bare_thread =
     \<lparr>name = None, isMainThread = None, samples = None,
      stackTable = None, frameTable = None, funcTable = None\<rparr>"


definition idle_thread :: thread where
  \<comment> \<open>a named main thread whose \<^verbatim>\<open>samples.length\<close> is 0, with columns that are not empty\<close>
  "idle_thread =
     bare_thread\<lparr>name := Some ''GeckoMain'', isMainThread := Some True,
       samples := Some (empty_samples\<lparr>sample_length := Some 0,
         timeDeltas := Some [Finite 1], threadCPUDelta := Some [5], stack := Some [Some 0]\<rparr>),
       stackTable := Some [(''frame'', [0])], frameTable := Some [(''func'', [0])],
       funcTable := Some [(''name'', [''idle''])]\<rparr>"

definition table_thread ::
  "int option list \<Rightarrow> int list \<Rightarrow> int list \<Rightarrow> string list \<Rightarrow> thread" where
  \<comment> \<open>a thread with the given \<^verbatim>\<open>samples.stack\<close>, \<^verbatim>\<open>stackTable.frame\<close>, \<^verbatim>\<open>frameTable.func\<close>
      and \<^verbatim>\<open>funcTable.name\<close>, and one sample counted\<close>
  "table_thread stacks frames funcs names =
     bare_thread\<lparr>samples := Some (empty_samples\<lparr>sample_length := Some 1, stack := Some stacks\<rparr>),
       stackTable := Some [(''frame'', frames)], frameTable := Some [(''func'', funcs)],
       funcTable := Some [(''name'', names)]\<rparr>"



section \<open>Properties of the thread loop\<close>






section \<open>Resolution on the sample input\<close>

text \<open>
  C2, as amended. On stacks \<open>[0, 0, 1]\<close>, stackTable.frame \<open>[0, 1]\<close>, frameTable.func
  \<open>[10, 11]\<close> and funcTable.name \<open>[foo, bar]\<close> every sample is skipped, because the
  function indices 10 and 11 are not below the length 2 of the name table: no name is
  resolved and nothing is listed. With frameTable.func \<open>[0, 1]\<close> instead, the same input
  lists foo with count 2 and bar with count 1, in descending count order.
\<close>

theorem C2_sample_input_resolves_nothing:
  "function_report (table_thread [Some 0, Some 0, Some 1] [0, 1] [10, 11] [''foo'', ''bar''])
       (thread_samples (table_thread [Some 0, Some 0, Some 1] [0, 1] [10, 11] [''foo'', ''bar'']))
     = ([], None)
   \<and> function_report (table_thread [Some 0, Some 0, Some 1] [0, 1] [0, 1] [''foo'', ''bar''])
       (thread_samples (table_thread [Some 0, Some 0, Some 1] [0, 1] [0, 1] [''foo'', ''bar'']))
     = ([TopHeader, FuncLine ''foo'' 2, FuncLine ''bar'' 1], None)"
  by (simp add: function_report_def report_calls_def thread_samples_def table_thread_def
      bare_thread_def empty_samples_def sample_step_def dict_get_def dict_item_def
      list_item_def Counter_def most_common_def)

text \<open>
  C2, as stated, fails: on the sample input the function report is not the list of foo
  with count 2 and bar with count 1.
\<close>

theorem C2_counterexample:
  "function_report (table_thread [Some 0, Some 0, Some 1] [0, 1] [10, 11] [''foo'', ''bar''])
       (thread_samples (table_thread [Some 0, Some 0, Some 1] [0, 1] [10, 11] [''foo'', ''bar'']))
     \<noteq> ([TopHeader, FuncLine ''foo'' 2, FuncLine ''bar'' 1], None)"
  by (simp add: function_report_def report_calls_def thread_samples_def table_thread_def
      bare_thread_def empty_samples_def sample_step_def dict_get_def dict_item_def
      list_item_def Counter_def most_common_def)

section \<open>Indices out of range\<close>

text \<open>
  C1, at the failing input. A stack index of \<open>-1\<close> is out of range for a table indexed
  from 0, but the source only tests \<^verbatim>\<open>stack_idx < len(...)\<close>: with one frame, one
  function and the name foo, the sample is not skipped, Python's indexing from the end
  resolves it, and foo is counted once. A stack index of \<open>-2\<close> passes the same test and
  raises IndexError.
\<close>

theorem C1_negative_index_not_skipped:
  "thread_block 0 (table_thread [Some (- 1)] [0] [0] [''foo'']) 0 0
     = ([ThreadHeader 1 ''Thread 0'', MainThread False, SampleCount 1, TotalTime ''0.00'',
         CpuTime 0, TopHeader, FuncLine ''foo'' 1, Blank], Inr (1, 0))
   \<and> thread_block 0 (table_thread [Some (- 2)] [0] [0] [''foo'']) 0 0
     = ([ThreadHeader 1 ''Thread 0'', MainThread False, SampleCount 1, TotalTime ''0.00'',
         CpuTime 0], Inl IndexError)"
proof -
  have z: "fmt2 (float_sum []) = ''0.00''"
    by code_simp
  show ?thesis
    by (simp add: thread_block_def thread_name_def is_main_def sample_count_def
        time_deltas_def cpu_deltas_def z
        function_report_def report_calls_def thread_samples_def table_thread_def
        bare_thread_def empty_samples_def sample_step_def dict_get_def dict_item_def
        list_item_def Counter_def most_common_def digit_def)
qed

section \<open>The default thread name\<close>

text \<open>
  C3, at the failing input. The first thread of a document, without a name, is printed
  under the number 1 (\<^verbatim>\<open>i+1\<close>) but its default name is built from \<^verbatim>\<open>i\<close>, the index
  from 0: the name is \<open>Thread 0\<close>, not \<open>Thread 1\<close>.
\<close>

theorem C3_first_unnamed_thread:
  "thread_name 0 bare_thread = ''Thread 0''
   \<and> thread_block 0 bare_thread 0 0
     = ([ThreadHeader 1 ''Thread 0'', MainThread False, SampleCount 0, Blank], Inr (0, 0))"
  by (simp add: thread_block_def thread_name_def is_main_def sample_count_def
      thread_samples_def bare_thread_def empty_samples_def digit_def)

section \<open>Time and CPU sums of a thread\<close>



section \<open>Threads without samples\<close>

text \<open>
  C7. For a thread whose \<^verbatim>\<open>samples.length\<close> is 0 (or absent), the block is the name
  line, the main-thread line and the count line, closed by the blank line that ends every
  block: no time, CPU or function line, no exception, and both totals are unchanged.
\<close>

theorem C7_zero_samples:
  assumes "sample_count thread = 0"
  shows "thread_block i thread total_samples total_cpu_time =
     ([ThreadHeader (i + 1) (thread_name i thread), MainThread (is_main thread),
       SampleCount 0, Blank],
      Inr (total_samples, total_cpu_time))"
  using assms by (simp add: thread_block_def)

theorem C7_zero_samples_witness:
  "thread_block 4 idle_thread 10 20 =
     ([ThreadHeader 5 ''GeckoMain'', MainThread True, SampleCount 0, Blank], Inr (10, 20))"
proof -
  have z: "sample_count idle_thread = 0"
    by (simp add: sample_count_def thread_samples_def idle_thread_def bare_thread_def
        empty_samples_def)
  from C7_zero_samples [OF z, of 4 10 20] show ?thesis
    by (simp add: thread_name_def is_main_def idle_thread_def bare_thread_def)
qed

section \<open>Failure of the unpacking command\<close>

text \<open>
  C8. When the unpacking command returns a nonzero code, the script prints the first
  line and the captured stderr, and exits with status 1, whatever the file would have
  held: the file is not opened. The file is opened exactly when the code is 0.
\<close>

theorem C8_unpack_failure:
  "(code \<noteq> 0 \<longrightarrow>
      main (out, err, code) loaded = ([Print Unpacking, Print (UnpackError err)], SysExit 1)
      \<and> exit_code (snd (main (out, err, code) loaded)) \<noteq> 0)
   \<and> (OpenJson \<in> set (fst (main (out, err, code) loaded)) \<longleftrightarrow> code = 0)"
  by (auto simp: main_def exit_code_def split: sum.splits prod.splits)

theorem C8_unpack_failure_witness:
  "main ([], ''gzip: bad header'', 2) (Inr \<lparr>threads = Some []\<rparr>)
     = ([Print Unpacking, Print (UnpackError ''gzip: bad header'')], SysExit 1)
   \<and> exit_code (snd (main ([], ''gzip: bad header'', 2) (Inr \<lparr>threads = Some []\<rparr>))) = 1
   \<and> OpenJson \<notin> set (fst (main ([], ''gzip: bad header'', 2) (Inr \<lparr>threads = Some []\<rparr>)))
   \<and> OpenJson \<in> set (fst (main ([], [], 0) (Inl OSError)))"
  using C8_unpack_failure [of 2 "[]" "''gzip: bad header''" "Inr \<lparr>threads = Some []\<rparr>"]
    C8_unpack_failure [of 0 "[]" "[]" "Inl OSError"]
  by (simp add: exit_code_def)

section \<open>The sample count is not checked against the columns\<close>



section \<open>The global summary\<close>



section \<open>Properties of resolution and counting\<close>
















section \<open>When the function report is made\<close>




section \<open>Properties of double rounding\<close>

lemma round_half_even_error: "\<bar>of_int (round_half_even q) - q\<bar> \<le> 1 / 2"
proof -
  have "of_int \<lfloor>q\<rfloor> \<le> q" "q < of_int \<lfloor>q\<rfloor> + 1"
    by linarith+
  thus ?thesis
    by (auto simp: round_half_even_def Let_def abs_le_iff)
qed

lemma round_half_even_nonneg: "0 \<le> q \<Longrightarrow> 0 \<le> round_half_even q"
  by (auto simp: round_half_even_def Let_def) 

lemma floor_log2_bounds:
  assumes "0 < q"
  shows "2 powi (floor_log2 q) \<le> q" and "q < 2 powi (floor_log2 q + 1)"
proof -
  define a where "a = fst (quotient_of q)"
  define b where "b = snd (quotient_of q)"
  define la where "la = bitlen a"
  define lb where "lb = bitlen b"
  define k where "k = la - lb"
  have b: "0 < b"
    by (simp add: b_def quotient_of_denom_pos')
  have q: "q = of_int a / of_int b"
    by (rule quotient_of_div) (simp add: a_def b_def)
  have a: "0 < a"
    using assms b by (simp add: q zero_less_divide_iff)
  from bitlen_bounds [OF a] have a1: "2 ^ nat (la - 1) \<le> a" and a2: "a < 2 ^ nat la"
    by (simp_all add: la_def)
  from bitlen_bounds [OF b] have b1: "2 ^ nat (lb - 1) \<le> b" and b2: "b < 2 ^ nat lb"
    by (simp_all add: lb_def)
  have la: "1 \<le> la"
  proof (rule ccontr)
    assume "\<not> 1 \<le> la"
    hence "nat la = 0" by simp
    with a2 a show False by simp
  qed
  have lb: "1 \<le> lb"
  proof (rule ccontr)
    assume "\<not> 1 \<le> lb"
    hence "nat lb = 0" by simp
    with b2 b show False by simp
  qed
  have A1: "(2::rat) powi (la - 1) \<le> of_int a"
  proof -
    have "(2::rat) powi (la - 1) = of_int (2 ^ nat (la - 1))"
      using la by (simp add: power_int_def)
    also have "\<dots> \<le> of_int a"
      using a1 by (simp only: of_int_le_iff)
    finally show ?thesis .
  qed
  have A2: "of_int a < (2::rat) powi la"
  proof -
    have "(of_int a :: rat) < of_int (2 ^ nat la)"
      using a2 by (simp only: of_int_less_iff)
    also have "\<dots> = 2 powi la"
      using la by (simp add: power_int_def)
    finally show ?thesis .
  qed
  have B1: "(2::rat) powi (lb - 1) \<le> of_int b"
  proof -
    have "(2::rat) powi (lb - 1) = of_int (2 ^ nat (lb - 1))"
      using lb by (simp add: power_int_def)
    also have "\<dots> \<le> of_int b"
      using b1 by (simp only: of_int_le_iff)
    finally show ?thesis .
  qed
  have B2: "of_int b < (2::rat) powi lb"
  proof -
    have "(of_int b :: rat) < of_int (2 ^ nat lb)"
      using b2 by (simp only: of_int_less_iff)
    also have "\<dots> = 2 powi lb"
      using lb by (simp add: power_int_def)
    finally show ?thesis .
  qed
  have pos: "\<And>n. (0::rat) < 2 powi n"
    by (simp add: zero_less_power_int)
  have lower: "(2::rat) powi (k - 1) \<le> q"
  proof -
    have "(2::rat) powi (k - 1) = 2 powi (la - 1) / 2 powi lb"
      by (simp add: k_def power_int_diff [symmetric] algebra_simps)
    also have "\<dots> \<le> of_int a / of_int b"
    proof (rule frac_le)
      show "(0::rat) \<le> of_int a" using a by simp
      show "(2::rat) powi (la - 1) \<le> of_int a" by (rule A1)
      show "(0::rat) < of_int b" using b by simp
      show "(of_int b :: rat) \<le> 2 powi lb" using B2 by simp
    qed
    finally show ?thesis by (simp add: q)
  qed
  have upper: "q < (2::rat) powi (k + 1)"
  proof -
    have "of_int a / of_int b < (2::rat) powi la / of_int b"
      using A2 b by (simp add: divide_strict_right_mono)
    also have "\<dots> \<le> 2 powi la / 2 powi (lb - 1)"
    proof (rule divide_left_mono)
      show "(2::rat) powi (lb - 1) \<le> of_int b" by (rule B1)
      show "(0::rat) \<le> 2 powi la" using pos [of la] by simp
      show "(0::rat) < of_int b * 2 powi (lb - 1)"
        using b pos [of "lb - 1"] by simp
    qed
    also have "\<dots> = 2 powi (k + 1)"
      by (simp add: k_def power_int_diff [symmetric] algebra_simps)
    finally show ?thesis by (simp add: q)
  qed
  have fl: "floor_log2 q = (if 2 powi k \<le> q then k else k - 1)"
    by (simp add: floor_log2_def Let_def k_def la_def lb_def a_def b_def)
  show "2 powi (floor_log2 q) \<le> q"
    using lower by (simp add: fl)
  show "q < 2 powi (floor_log2 q + 1)"
    using upper by (simp add: fl)
qed


lemma round_double_nonneg:
  assumes "0 \<le> q" and "round_double q = Finite r"
  shows "0 \<le> r"
proof (cases "q = 0")
  case True
  with assms show ?thesis by (simp add: round_double_def)
next
  case False
  with assms(1) have "0 < q" by simp
  hence "0 \<le> round_half_even (\<bar>q\<bar> / 2 powi (max (floor_log2 \<bar>q\<bar> - 52) (- 1074)))"
    by (intro round_half_even_nonneg divide_nonneg_pos) (simp_all add: zero_less_power_int)
  with assms(2) False \<open>0 < q\<close> show ?thesis
    by (auto simp: round_double_def Let_def zero_less_power_int split: if_splits)
qed

lemma round_double_error:
  assumes "2 powi (- 1022) \<le> \<bar>q\<bar>" and "round_double q = Finite r"
  shows "\<bar>r - q\<bar> \<le> \<bar>q\<bar> * 2 powi (- 53)"
proof -
  define e where "e = floor_log2 \<bar>q\<bar>"
  define s :: rat where "s = 2 powi (e - 52)"
  define m where "m = round_half_even (\<bar>q\<bar> / s)"
  have "(0::rat) < 2 powi (- 1022)"
    by (simp add: zero_less_power_int)
  with assms(1) have q0: "0 < \<bar>q\<bar>" by linarith
  hence qn: "q \<noteq> 0" by simp
  from floor_log2_bounds [OF q0]
  have lo: "2 powi e \<le> \<bar>q\<bar>" and hi: "\<bar>q\<bar> < 2 powi (e + 1)"
    by (simp_all add: e_def)
  have e: "- 1022 \<le> e"
  proof (rule ccontr)
    assume "\<not> - 1022 \<le> e"
    hence "e + 1 \<le> - 1022" by simp
    hence "(2::rat) powi (e + 1) \<le> 2 powi (- 1022)"
      by (rule power_int_increasing) simp
    with assms(1) hi show False by linarith
  qed
  hence p: "max (e - 52) (- 1074) = e - 52" by simp
  have s: "0 < s" by (simp add: s_def zero_less_power_int)
  from assms(2) qn have r: "r = sgn q * of_int m * s"
    by (simp add: round_double_def Let_def e_def [symmetric] p s_def [symmetric]
        m_def [symmetric] split: if_splits)
  have "\<bar>of_int m - \<bar>q\<bar> / s\<bar> \<le> 1 / 2"
    unfolding m_def by (rule round_half_even_error)
  hence "\<bar>of_int m - \<bar>q\<bar> / s\<bar> * s \<le> 1 / 2 * s"
    using s by (intro mult_right_mono) simp_all
  moreover have "\<bar>of_int m - \<bar>q\<bar> / s\<bar> * s = \<bar>of_int m * s - \<bar>q\<bar>\<bar>"
  proof -
    have "\<bar>of_int m - \<bar>q\<bar> / s\<bar> * s = \<bar>(of_int m - \<bar>q\<bar> / s) * s\<bar>"
      using s by (simp add: abs_mult)
    also have "(of_int m - \<bar>q\<bar> / s) * s = of_int m * s - \<bar>q\<bar>"
      using s by (simp add: field_simps)
    finally show ?thesis .
  qed
  ultimately have ms: "\<bar>of_int m * s - \<bar>q\<bar>\<bar> \<le> s / 2" by simp
  have "sgn q * \<bar>q\<bar> = q"
    by (rule mult_sgn_abs)
  hence "r - q = sgn q * (of_int m * s - \<bar>q\<bar>)"
    by (simp add: r right_diff_distrib mult.assoc)
  hence "\<bar>r - q\<bar> = \<bar>of_int m * s - \<bar>q\<bar>\<bar>"
    using qn by (simp add: abs_mult abs_sgn_eq)
  also note ms
  also have "s / 2 = 2 powi e * 2 powi (- 53)"
  proof -
    have h: "(2::rat) powi (- 1) = 1 / 2" by simp
    have "s / 2 = 2 powi (e - 52) * 2 powi (- 1)"
      by (simp only: s_def h)
    also have "\<dots> = 2 powi ((e - 52) + (- 1))"
      by (rule power_int_add [symmetric]) simp
    also have "(e - 52) + (- 1) = e + (- 53)"
      by simp
    also have "(2::rat) powi (e + (- 53)) = 2 powi e * 2 powi (- 53)"
      by (rule power_int_add) simp
    finally show ?thesis .
  qed
  also have "\<dots> \<le> \<bar>q\<bar> * 2 powi (- 53)"
    using lo by (intro mult_right_mono) (simp_all add: zero_less_power_int less_imp_le)
  finally show ?thesis .
qed


lemma round_double_neg_upper:
  assumes "q \<le> hi" and "hi < 0" and "2 powi (- 1022) \<le> - hi"
    and "round_double q = Finite r"
  shows "r \<le> hi * (1 - 2 powi (- 53))"
proof -
  have eps: "(2::rat) powi (- 53) = 1 / 9007199254740992" by simp
  from assms have n: "2 powi (- 1022) \<le> \<bar>q\<bar>" and a: "\<bar>q\<bar> = - q" by simp_all
  from round_double_error [OF n assms(4)] have "r - q \<le> - q * 2 powi (- 53)"
    unfolding a by simp
  hence "r \<le> q * (1 - 2 powi (- 53))"
    by (simp add: algebra_simps)
  also have "\<dots> \<le> hi * (1 - 2 powi (- 53))"
    using assms(1) by (intro mult_right_mono) (simp_all add: eps)
  finally show ?thesis .
qed

lemma round_double_neg_lower:
  assumes "lo \<le> q" and "q < 0" and "2 powi (- 1022) \<le> - q"
    and "round_double q = Finite r"
  shows "lo * (1 + 2 powi (- 53)) \<le> r"
proof -
  have eps: "(2::rat) powi (- 53) = 1 / 9007199254740992" by simp
  from assms have n: "2 powi (- 1022) \<le> \<bar>q\<bar>" and a: "\<bar>q\<bar> = - q" by simp_all
  have "lo * (1 + 2 powi (- 53)) \<le> q * (1 + 2 powi (- 53))"
    using assms(1) by (intro mult_right_mono) (simp_all add: eps)
  also from round_double_error [OF n assms(4)] have "- (r - q) \<le> - q * 2 powi (- 53)"
    unfolding a by simp
  hence "q * (1 + 2 powi (- 53)) \<le> r"
    by (simp add: algebra_simps)
  finally show ?thesis .
qed

lemma min_normal_small: "(2::rat) powi (- 1022) \<le> 1 / 16384"
proof -
  have "(2::rat) powi (- 1022) \<le> 2 powi (- 14)"
    by (rule power_int_increasing) simp_all
  thus ?thesis by simp
qed

lemma improvement_sign:
  assumes "improvement t = Inr v"
  shows "(v < 0 \<longleftrightarrow> 9178 \<le> t) \<and> (9087 < t \<and> t < 9178 \<longrightarrow> v = 0)"
proof -
  define q :: rat where "q = of_int (9087 - t) / 9087"
  have eps: "(2::rat) powi (- 53) = 1 / 9007199254740992" by simp
  from assms obtain r r' where
    r: "round_double q = Finite r" and
    r': "round_double (r * 100) = Finite r'" and
    v: "v = (if 0 \<le> r' then \<lfloor>r'\<rfloor> else \<lceil>r'\<rceil>)"
    by (auto simp: improvement_def truediv_def py_int_def q_def
        split: pyfloat.splits sum.splits if_splits)
  consider "t \<le> 9087" | "9087 < t" "t < 9178" | "9178 \<le> t" by linarith
  thus ?thesis
  proof cases
    case 1
    hence "(0::rat) \<le> of_int (9087 - t)" by simp
    hence "0 \<le> q" by (simp add: q_def)
    from round_double_nonneg [OF this r] have "0 \<le> r * 100" by simp
    from round_double_nonneg [OF this r'] have "0 \<le> r'" .
    with v have "0 \<le> v" by simp
    with 1 show ?thesis by simp
  next
    case 2
    hence "(of_int (9087 - t) :: rat) \<le> of_int (- 1)" "(of_int (- 90) :: rat) \<le> of_int (9087 - t)"
      by (simp_all only: of_int_le_iff)
    hence qhi: "q \<le> - 1 / 9087" and qlo: "- 90 / 9087 \<le> q"
      by (simp_all add: q_def)
    have qn: "q < 0" using qhi by simp
    have "2 powi (- 1022) \<le> - q" using min_normal_small qhi by simp
    from round_double_neg_lower [OF qlo qn this r]
    have rlo: "- 991 / 1000 / 100 \<le> r" by (simp add: eps)
    have "2 powi (- 1022) \<le> - (- 1 / 9087 :: rat)" using min_normal_small by simp
    from round_double_neg_upper [OF qhi _ this r]
    have rhi: "r \<le> - 1 / 10000" by (simp add: eps)
    have ylo: "- 991 / 1000 \<le> r * 100" and yhi: "r * 100 \<le> - 1 / 100"
      using rlo rhi by simp_all
    have yn: "r * 100 < 0" using yhi by simp
    have "2 powi (- 1022) \<le> - (r * 100)" using min_normal_small yhi by simp
    from round_double_neg_lower [OF ylo yn this r']
    have "- 1 < r'" by (simp add: eps)
    moreover have "2 powi (- 1022) \<le> - (- 1 / 100 :: rat)" using min_normal_small by simp
    from round_double_neg_upper [OF yhi _ this r']
    have "r' < 0" by (simp add: eps)
    ultimately have "\<lceil>r'\<rceil> = 0" by (simp add: ceiling_eq_iff)
    with v \<open>r' < 0\<close> have "v = 0" by simp
    with 2 show ?thesis by simp
  next
    case 3
    hence "(of_int (9087 - t) :: rat) \<le> of_int (- 91)"
      by (simp only: of_int_le_iff)
    hence qhi: "q \<le> - 91 / 9087"
      by (simp add: q_def)
    have "2 powi (- 1022) \<le> - (- 91 / 9087 :: rat)" using min_normal_small by simp
    from round_double_neg_upper [OF qhi _ this r]
    have rhi: "r \<le> - 1001 / 1000 / 100" by (simp add: eps)
    hence yhi: "r * 100 \<le> - 1001 / 1000" by simp
    have "2 powi (- 1022) \<le> - (- 1001 / 1000 :: rat)" using min_normal_small by simp
    from round_double_neg_upper [OF yhi _ this r']
    have "r' \<le> - 1" by (simp add: eps)
    hence n: "r' < 0" and c: "\<lceil>r'\<rceil> \<le> - 1" by (simp_all add: ceiling_le_iff)
    from v n have "v = \<lceil>r'\<rceil>" by simp
    with c have "v < 0" by linarith
    with 3 show ?thesis by simp
  qed
qed

lemma round_half_even_of_int: "round_half_even (of_int w) = w"
  by (simp add: round_half_even_def)

lemma round_double_minus:
  "round_double (- q) =
     (case round_double q of
        Finite r \<Rightarrow> Finite (- r) | PosInf \<Rightarrow> NegInf | NegInf \<Rightarrow> PosInf | NaN \<Rightarrow> NaN)"
  by (cases "q = 0"; cases "q < 0") (auto simp: round_double_def Let_def sgn_if)

lemma floor_log2_less:
  assumes "0 < q" and "q < 2 powi n"
  shows "floor_log2 q < n"
proof (rule ccontr)
  assume "\<not> floor_log2 q < n"
  hence "n \<le> floor_log2 q" by simp
  hence "(2::rat) powi n \<le> 2 powi (floor_log2 q)"
    by (rule power_int_increasing) simp
  with floor_log2_bounds(1) [OF assms(1)] assms(2) show False by linarith
qed

lemma floor_log2_ge:
  assumes "0 < q" and "2 powi n \<le> q"
  shows "n \<le> floor_log2 q"
proof (rule ccontr)
  assume "\<not> n \<le> floor_log2 q"
  hence "floor_log2 q + 1 \<le> n" by simp
  hence "(2::rat) powi (floor_log2 q + 1) \<le> 2 powi n"
    by (rule power_int_increasing) simp
  with floor_log2_bounds(2) [OF assms(1)] assms(2) show False by linarith
qed

lemma round_double_finite:
  assumes "\<bar>q\<bar> < 2 powi 1023"
  shows "\<exists>r. round_double q = Finite r"
proof (cases "q = 0")
  case True
  then show ?thesis by (simp add: round_double_def)
next
  case False
  hence "0 < \<bar>q\<bar>" by simp
  from floor_log2_less [OF this assms] show ?thesis
    using False by (simp add: round_double_def Let_def)
qed

lemma round_double_of_int:
  assumes "\<bar>z\<bar> < 2 ^ 53"
  shows "round_double (of_int z) = Finite (of_int z)"
proof (cases "z = 0")
  case True
  then show ?thesis by (simp add: round_double_def)
next
  case False
  define q :: rat where "q = of_int z"
  define e where "e = floor_log2 \<bar>q\<bar>"
  have qn: "q \<noteq> 0" using False by (simp add: q_def)
  have qp: "0 < \<bar>q\<bar>" using qn by simp
  have "1 \<le> \<bar>z\<bar>"
    using False by simp
  hence "(of_int 1 :: rat) \<le> of_int \<bar>z\<bar>"
    by (simp only: of_int_le_iff)
  hence "(1::rat) \<le> of_int \<bar>z\<bar>"
    by simp
  hence one: "(2::rat) powi 0 \<le> \<bar>q\<bar>" by (simp add: q_def)
  have "(of_int \<bar>z\<bar> :: rat) < of_int (2 ^ 53)"
    using assms by (simp only: of_int_less_iff)
  hence big: "\<bar>q\<bar> < 2 powi 53" by (simp add: q_def)
  have e0: "0 \<le> e" unfolding e_def by (rule floor_log2_ge [OF qp one])
  have e52: "e < 53" unfolding e_def by (rule floor_log2_less [OF qp big])
  hence p: "max (e - 52) (- 1074) = e - 52" using e0 by simp
  define w where "w = \<bar>z\<bar> * 2 ^ nat (52 - e)"
  have inv: "(2::rat) powi (e - 52) * 2 powi (52 - e) = 1"
  proof -
    have "(2::rat) powi (e - 52) * 2 powi (52 - e) = 2 powi ((e - 52) + (52 - e))"
      by (rule power_int_add [symmetric]) simp
    thus ?thesis by simp
  qed
  have up: "(2::rat) powi (52 - e) = of_int (2 ^ nat (52 - e))"
    using e52 by (simp add: power_int_def)
  have "\<bar>q\<bar> / 2 powi (e - 52) = \<bar>q\<bar> * 2 powi (52 - e)"
    using inv by (simp add: field_simps zero_less_power_int)
  also have "\<dots> = of_int w"
    by (simp add: w_def q_def up)
  finally have m: "round_half_even (\<bar>q\<bar> / 2 powi (e - 52)) = w"
    by (simp only: round_half_even_of_int)
  have "of_int w * (2::rat) powi (e - 52) = \<bar>q\<bar>"
  proof -
    have "of_int w * (2::rat) powi (e - 52) = \<bar>q\<bar> * (2 powi (52 - e) * 2 powi (e - 52))"
      by (simp add: w_def q_def up)
    thus ?thesis using inv by (simp add: mult.commute)
  qed
  hence val: "sgn q * of_int w * (2::rat) powi (e - 52) = q"
    by (simp add: mult.assoc mult_sgn_abs)
  have "round_double q = Finite (sgn q * of_int w * 2 powi (e - 52))"
    using qn e52 by (simp add: round_double_def Let_def e_def [symmetric] p m)
  thus ?thesis by (simp only: val) (simp add: q_def)
qed


lemma improvement_chain:
  assumes "1 \<le> N" and "N \<le> 10 ^ 13"
  shows "\<exists>r r'. round_double (of_int N / 9087) = Finite r
           \<and> round_double (r * 100) = Finite r'
           \<and> 0 \<le> r' \<and> \<lfloor>r'\<rfloor> = (N * 100) div 9087"
proof (cases "(N * 100) mod 9087 = 0")
  case True
  hence "9087 dvd N * 100" by (simp add: dvd_eq_mod_eq_0)
  moreover have "gcd (9087::int) 100 = 1"
    by code_simp
  hence "coprime (9087::int) 100"
    by (simp only: coprime_iff_gcd_eq_1)
  ultimately have "9087 dvd N"
    by (simp add: coprime_dvd_mult_left_iff)
  then obtain j where j: "N = 9087 * j" by (auto simp: dvd_def)
  with assms have j1: "1 \<le> j" and j2: "j \<le> 10 ^ 13" by simp_all
  have q: "(of_int N :: rat) / 9087 = of_int j" by (simp add: j)
  have "\<bar>j\<bar> < 2 ^ 53" using j1 j2 by simp
  hence r: "round_double (of_int j) = Finite (of_int j)"
    by (rule round_double_of_int)
  have "\<bar>j * 100\<bar> < 2 ^ 53" using j1 j2 by simp
  hence "round_double (of_int (j * 100)) = Finite (of_int (j * 100))"
    by (rule round_double_of_int)
  hence r': "round_double (of_int j * 100) = Finite (of_int (j * 100))"
    by simp
  have k: "(N * 100) div 9087 = j * 100" by (simp add: j)
  have "round_double (of_int N / 9087) = Finite (of_int j)
      \<and> round_double (of_int j * 100) = Finite (of_int (j * 100))
      \<and> (0::rat) \<le> of_int (j * 100)
      \<and> \<lfloor>of_int (j * 100) :: rat\<rfloor> = (N * 100) div 9087"
    using r r' j1 by (simp only: q k floor_of_int of_int_0_le_iff) simp
  thus ?thesis by blast
next
  case False
  define q :: rat where "q = of_int N / 9087"
  define x :: rat where "x = of_int (N * 100) / 9087"
  define k where "k = (N * 100) div 9087"
  define rho where "rho = (N * 100) mod 9087"
  have eps: "(2::rat) powi (- 53) = 1 / 9007199254740992" by simp
  have rho: "1 \<le> rho" "rho \<le> 9086"
    using False by (simp_all add: rho_def)
  have "N * 100 = 9087 * k + rho"
    by (simp add: k_def rho_def)
  hence "(of_int (N * 100) :: rat) = 9087 * of_int k + of_int rho"
    by (simp only: of_int_add of_int_mult of_int_numeral)
  hence xk: "x = of_int k + of_int rho / 9087"
    by (simp add: x_def field_simps)
  have "(of_int 1 :: rat) \<le> of_int rho" "(of_int rho :: rat) \<le> of_int 9086"
    using rho by (simp_all only: of_int_le_iff)
  hence xlo: "of_int k + 1 / 9087 \<le> x" and xhi: "x \<le> of_int k + 9086 / 9087"
    by (simp_all add: xk)
  have k0: "0 \<le> k" using assms by (simp add: k_def)
  have xq: "x = q * 100" by (simp add: x_def q_def)
  have "(of_int 1 :: rat) \<le> of_int N" "(of_int N :: rat) \<le> of_int (10 ^ 13)"
    using assms by (simp_all only: of_int_le_iff)
  hence qlo: "1 / 9087 \<le> q" and qhi: "q \<le> 10 ^ 13 / 9087"
    by (simp_all add: q_def)
  have big: "(2::rat) powi 60 \<le> 2 powi 1023"
    by (rule power_int_increasing) simp_all
  have b60: "(2::rat) powi 60 = 1152921504606846976" by simp
  have qa: "\<bar>q\<bar> = q" using qlo by simp
  have "\<bar>q\<bar> < 2 powi 1023" using qhi big by (simp add: qa b60)
  then obtain r where r: "round_double q = Finite r"
    using round_double_finite by blast
  have "2 powi (- 1022) \<le> \<bar>q\<bar>" using min_normal_small qlo by (simp add: qa)
  from round_double_error [OF this r] have "\<bar>r - q\<bar> \<le> q * 2 powi (- 53)"
    by (simp add: qa)
  also have "\<dots> \<le> 10 ^ 13 / 9087 * 2 powi (- 53)"
    using qhi by (intro mult_right_mono) (simp_all add: eps)
  finally have "\<bar>r - q\<bar> \<le> 1 / 5000000"
    by (simp add: eps)
  hence yx: "\<bar>r * 100 - x\<bar> \<le> 1 / 50000"
    unfolding xq by linarith
  have xlo': "100 / 9087 \<le> x" and xhi': "x \<le> 10 ^ 15 / 9087"
    using qlo qhi by (simp_all add: xq)
  have ylo: "1 / 100 \<le> r * 100" and yhi: "r * 100 \<le> 10 ^ 15 / 9087 + 1 / 50000"
    using yx xlo' xhi' by linarith+
  have ya: "\<bar>r * 100\<bar> = r * 100" using ylo by simp
  have "\<bar>r * 100\<bar> < 2 powi 1023" using yhi big by (simp add: ya b60)
  then obtain r' where r': "round_double (r * 100) = Finite r'"
    using round_double_finite by blast
  have "2 powi (- 1022) \<le> \<bar>r * 100\<bar>" using min_normal_small ylo by (simp add: ya)
  from round_double_error [OF this r'] have "\<bar>r' - r * 100\<bar> \<le> r * 100 * 2 powi (- 53)"
    by (simp add: ya)
  also have "\<dots> \<le> (10 ^ 15 / 9087 + 1 / 50000) * 2 powi (- 53)"
    using yhi by (intro mult_right_mono) (simp_all add: eps)
  finally have "\<bar>r' - r * 100\<bar> \<le> 1 / 50000"
    by (simp add: eps)
  with yx have "\<bar>r' - x\<bar> \<le> 1 / 25000" by linarith
  with xlo xhi have "of_int k \<le> r'" "r' < of_int k + 1"
    by linarith+
  hence "\<lfloor>r'\<rfloor> = k" "0 \<le> r'" using k0 by (simp_all add: floor_unique)
  with r r' show ?thesis
    unfolding q_def k_def by blast
qed


lemma improvement_exact:
  assumes "\<bar>9087 - t\<bar> \<le> 10 ^ 13"
  shows "improvement t =
     Inr (if t \<le> 9087 then ((9087 - t) * 100) div 9087
          else - (((t - 9087) * 100) div 9087))"
proof -
  consider "t = 9087" | "t < 9087" | "9087 < t" by linarith
  thus ?thesis
  proof cases
    case 1
    then show ?thesis
      by (simp add: improvement_def truediv_def py_int_def round_double_def)
  next
    case 2
    with assms have "1 \<le> 9087 - t" "9087 - t \<le> 10 ^ 13" by simp_all
    from improvement_chain [OF this] obtain r r' where
      "round_double (of_int (9087 - t) / 9087) = Finite r"
      "round_double (r * 100) = Finite r'" "0 \<le> r'"
      "\<lfloor>r'\<rfloor> = ((9087 - t) * 100) div 9087"
      by blast
    with 2 show ?thesis
      by (simp add: improvement_def truediv_def py_int_def)
  next
    case 3
    with assms have "1 \<le> t - 9087" "t - 9087 \<le> 10 ^ 13" by simp_all
    from improvement_chain [OF this] obtain r r' where
      r: "round_double (of_int (t - 9087) / 9087) = Finite r" and
      r': "round_double (r * 100) = Finite r'" and p: "0 \<le> r'" and
      f: "\<lfloor>r'\<rfloor> = ((t - 9087) * 100) div 9087"
      by blast
    have "(of_int (9087 - t) :: rat) = - of_int (t - 9087)"
      by simp
    hence "(of_int (9087 - t) :: rat) / of_int 9087 = - (of_int (t - 9087) / 9087)"
      by (simp only: minus_divide_left of_int_numeral)
    hence a: "round_double (of_int (9087 - t) / of_int 9087) = Finite (- r)"
      by (simp only: round_double_minus r) simp
    have "- r * 100 = - (r * 100)" by simp
    hence b: "round_double (- r * 100) = Finite (- r')"
      by (simp only: round_double_minus r') simp
    have "(if 0 \<le> - r' then \<lfloor>- r'\<rfloor> else \<lceil>- r'\<rceil>) = - \<lfloor>r'\<rfloor>"
      using p by (cases "r' = 0") (simp_all add: ceiling_minus)
    with 3 a b f show ?thesis
      by (simp add: improvement_def truediv_def py_int_def)
  qed
qed

section \<open>The improvement percentage\<close>

text \<open>
  C4, as amended. The integer printed on line 97 is
  \<^verbatim>\<open>int((9087 - total_cpu_time) / 9087 * 100)\<close> in double arithmetic, truncated toward zero
  and not clamped. Whenever it is printed, it is negative exactly when the total is at
  least 9178, and it is 0 for totals from 9088 to 9177. For totals within \<open>10 ^ 13\<close> of
  9087 the summary runs to its end and the printed integer is the exact quotient
  \<open>(9087 - total_cpu_time) * 100 / 9087\<close> truncated toward zero: the two roundings of the
  double arithmetic do not change it.
\<close>

theorem C4_improvement_percentage:
  "(Improvement v \<in> set (fst (summary total_samples total_cpu_time)) \<longrightarrow>
      improvement total_cpu_time = Inr v
      \<and> (v < 0 \<longleftrightarrow> 9178 \<le> total_cpu_time)
      \<and> (9087 < total_cpu_time \<and> total_cpu_time < 9178 \<longrightarrow> v = 0))
   \<and> (\<bar>9087 - total_cpu_time\<bar> \<le> 10 ^ 13 \<longrightarrow>
      snd (summary total_samples total_cpu_time) = ExitOk
      \<and> Improvement (if total_cpu_time \<le> 9087
                       then ((9087 - total_cpu_time) * 100) div 9087
                       else - (((total_cpu_time - 9087) * 100) div 9087))
          \<in> set (fst (summary total_samples total_cpu_time)))"
proof (intro conjI impI)
  assume a: "Improvement v \<in> set (fst (summary total_samples total_cpu_time))"
  thus i: "improvement total_cpu_time = Inr v"
    by (auto simp: summary_def Let_def split: sum.splits)
  from improvement_sign [OF i]
  show "v < 0 \<longleftrightarrow> 9178 \<le> total_cpu_time" by simp
  assume "9087 < total_cpu_time \<and> total_cpu_time < 9178"
  with improvement_sign [OF i] show "v = 0" by simp
next
  assume b: "\<bar>9087 - total_cpu_time\<bar> \<le> 10 ^ 13"
  let ?p = "if total_cpu_time \<le> 9087 then ((9087 - total_cpu_time) * 100) div 9087
            else - (((total_cpu_time - 9087) * 100) div 9087)"
  have i: "improvement total_cpu_time = Inr ?p"
    using b by (rule improvement_exact)
  from b have "\<bar>total_cpu_time\<bar> \<le> 10 ^ 14" by simp
  hence "(of_int \<bar>total_cpu_time\<bar> :: rat) \<le> of_int (10 ^ 14)"
    by (simp only: of_int_le_iff)
  hence "\<bar>of_int total_cpu_time / 1000 :: rat\<bar> \<le> 10 ^ 11"
    by simp
  moreover have "(2::rat) powi 60 \<le> 2 powi 1023"
    by (rule power_int_increasing) simp_all
  moreover have "(2::rat) powi 60 = 1152921504606846976"
    by simp
  ultimately have "\<bar>of_int total_cpu_time / 1000 :: rat\<bar> < 2 powi 1023"
    by simp
  from round_double_finite [OF this] obtain ms where
    "round_double (of_int total_cpu_time / 1000) = Finite ms" by blast
  hence s: "truediv total_cpu_time 1000 = Inr (Finite ms)"
    by (simp add: truediv_def)
  show "snd (summary total_samples total_cpu_time) = ExitOk"
    by (simp add: summary_def s i)
  show "Improvement ?p \<in> set (fst (summary total_samples total_cpu_time))"
    by (simp add: summary_def s i)
qed

theorem C4_improvement_percentage_witness:
  "improvement 18174 = Inr (- 100) \<and> improvement 9100 = Inr 0
   \<and> Improvement 44 \<in> set (fst (summary 0 5000))
   \<and> Improvement (- 10) \<in> set (fst (summary 0 10000))"
proof -
  have a: "Improvement (- 100) \<in> set (fst (summary 0 18174))"
    by code_simp
  have b: "Improvement 0 \<in> set (fst (summary 0 9100))"
    by code_simp
  have c: "\<bar>9087 - 5000\<bar> \<le> (10 :: int) ^ 13" "\<bar>9087 - 10000\<bar> \<le> (10 :: int) ^ 13"
    by simp_all
  from C4_improvement_percentage [of "- 100" 0 18174] C4_improvement_percentage [of 0 0 9100]
    C4_improvement_percentage [of 0 0 5000] C4_improvement_percentage [of 0 0 10000] a b c
  show ?thesis
    by simp
qed

text \<open>
  C4, as stated, fails: for a total of 9088, above 9087, the printed value is 0, which is
  not negative.
\<close>

theorem C4_counterexample:
  "(9087 :: int) < 9088 \<and> improvement 9088 = Inr 0
   \<and> Improvement 0 \<in> set (fst (summary 0 9088))"
proof -
  have "improvement 9088 = Inr 0"
    by code_simp
  moreover have "Improvement 0 \<in> set (fst (summary 0 9088))"
    by code_simp
  ultimately show ?thesis by simp
qed

section \<open>Properties of the per-sample step\<close>

lemma dict_item_get:
  "i < int (length (dict_get d k [])) \<Longrightarrow> 0 \<le> i \<Longrightarrow> dict_item d k = Inr (dict_get d k [])"
  by (auto simp: dict_item_def dict_get_def split: option.splits)

lemma list_item_nonneg:
  "0 \<le> i \<Longrightarrow> i < int (length xs) \<Longrightarrow> list_item xs i = Inr (xs ! nat i)"
  by (simp add: list_item_def)

lemma list_all_nth_nonneg:
  "list_all (\<lambda>x. (0::int) \<le> x) xs \<Longrightarrow> 0 \<le> i \<Longrightarrow> i < int (length xs) \<Longrightarrow> 0 \<le> xs ! nat i"
  by (simp add: list_all_length)

lemma sample_step_nonneg:
  assumes "nonneg_index stack_idx"
    and fr: "list_all (\<lambda>x. 0 \<le> x) (dict_get st ''frame'' [])"
    and fu: "list_all (\<lambda>x. 0 \<le> x) (dict_get ft ''func'' [])"
  shows "sample_step st ft fn stack_idx fc =
     Inr (case resolve_name_spec st ft fn stack_idx of None \<Rightarrow> fc | Some nm \<Rightarrow> fc @ [nm])"
proof (cases stack_idx)
  case None
  then show ?thesis by (simp add: sample_step_def resolve_name_spec_def)
next
  case (Some si)
  with assms(1) have si: "0 \<le> si" by (simp add: nonneg_index_def)
  let ?frames = "dict_get st ''frame'' []"
  let ?funcs = "dict_get ft ''func'' []"
  show ?thesis
  proof (cases "si < int (length ?frames)")
    case False
    with Some si show ?thesis
      by (simp add: sample_step_def resolve_name_spec_def)
  next
    case s1: True
    note d1 = dict_item_get [OF s1 si] and l1 = list_item_nonneg [OF si s1]
    have fi: "0 \<le> ?frames ! nat si"
      by (rule list_all_nth_nonneg [OF fr si s1])
    show ?thesis
    proof (cases "?frames ! nat si < int (length ?funcs)")
      case False
      with Some si s1 fi show ?thesis
        by (simp add: sample_step_def resolve_name_spec_def d1 l1)
    next
      case s2: True
      note d2 = dict_item_get [OF s2 fi] and l2 = list_item_nonneg [OF fi s2]
      have gi: "0 \<le> ?funcs ! nat (?frames ! nat si)"
        by (rule list_all_nth_nonneg [OF fu fi s2])
      show ?thesis
      proof (cases "?funcs ! nat (?frames ! nat si) < int (length fn)")
        case False
        with Some si s1 s2 fi gi show ?thesis
          by (simp add: sample_step_def resolve_name_spec_def d1 l1 d2 l2)
      next
        case s3: True
        note l3 = list_item_nonneg [OF gi s3]
        from Some si s1 s2 s3 fi gi show ?thesis
          by (simp add: sample_step_def resolve_name_spec_def d1 l1 d2 l2 l3)
      qed
    qed
  qed
qed

section \<open>Null entries and indices beyond a table\<close>

text \<open>
  When no index is negative (in the stack column, the frame column and the function
  column), the loop of the source never raises and collects exactly the names that the
  three checked lookups of the specification resolve, in the order of the samples: a null
  entry, or an index at or beyond the length of its table at any of the three stages, is
  skipped and the loop goes on with the next sample.
\<close>

theorem resolve_loop_skips:
  assumes "list_all nonneg_index stacks"
    and fr: "list_all (\<lambda>x. 0 \<le> x) (dict_get st ''frame'' [])"
    and fu: "list_all (\<lambda>x. 0 \<le> x) (dict_get ft ''func'' [])"
  shows "resolve_loop st ft fn stacks fc =
     Inr (fc @ List.map_filter (resolve_name_spec st ft fn) stacks)"
  using assms(1)
proof (induction stacks arbitrary: fc)
  case Nil
  show ?case by (simp add: List.map_filter_simps)
next
  case (Cons idx stacks)
  hence i: "nonneg_index idx" and r: "list_all nonneg_index stacks" by simp_all
  show ?case
    by (simp add: sample_step_nonneg [OF i fr fu] Cons.IH [OF r] List.map_filter_simps
        split: option.splits)
qed

theorem resolve_loop_skips_witness:
  "resolve_loop [(''frame'', [0, 5, 1])] [(''func'', [0, 9])] [''main'']
     [Some 0, None, Some 7, Some 1, Some 2, Some 0] [] = Inr [''main'', ''main'']"
proof -
  have a: "list_all nonneg_index [Some 0, None, Some 7, Some 1, Some 2, Some 0]"
    by (simp add: nonneg_index_def)
  have b: "list_all (\<lambda>x. 0 \<le> x) (dict_get [(''frame'', [0, 5, 1 :: int])] ''frame'' [])"
    by (simp add: dict_get_def)
  have c: "list_all (\<lambda>x. 0 \<le> x) (dict_get [(''func'', [0, 9 :: int])] ''func'' [])"
    by (simp add: dict_get_def)
  from resolve_loop_skips [OF a b c, of "[''main'']" "[]"] show ?thesis
    by (simp add: List.map_filter_simps resolve_name_spec_def dict_get_def)
qed

end
